theory Spec2Isabelle
  imports Main "HOL-Library.Word"
begin

section \<open>AutoDiary firmware (src/main.cpp): data model\<close>

text \<open>
  The firmware is one translation unit: global flags and counters, a set of HTTP request
  handlers run to completion by \<open>loop()\<close>, and two background tasks. The model keeps
  the globals in one record, passes it through every function, and lets every function
  return the list of calls it makes on its collaborators (camera driver, file store, I2S
  sampler, web server) in program order. What a collaborator answers is an input of the
  call: the theorems hold for every answer. Calls on \<open>Serial\<close>, \<open>millis()\<close> and the heap
  statistics only print and are left out.
\<close>

type_synonym byte = "8 word"
type_synonym u32 = "32 word"  \<comment> \<open>\<open>unsigned long\<close>, \<open>uint32_t\<close> and \<open>size_t\<close> on the ESP32-S3\<close>

datatype framesize_t = FRAMESIZE_96X96 | FRAMESIZE_VGA | FRAMESIZE_UXGA
datatype pixformat_t = PIXFORMAT_RGB565 | PIXFORMAT_JPEG
datatype camera_grab_mode_t = CAMERA_GRAB_WHEN_EMPTY
datatype camera_fb_location_t = CAMERA_FB_IN_PSRAM

text \<open>\<open>camera_config_t\<close>: the fields \<open>setupCamera\<close> assigns. The pin numbers come from
  \<open>camera_pins.h\<close> and are carried as one list, in the order of the assignments.\<close>

record camera_config_t =
  pins :: "int list"
  xclk_freq_hz :: nat
  frame_size :: framesize_t
  pixel_format :: pixformat_t
  grab_mode :: camera_grab_mode_t
  fb_location :: camera_fb_location_t
  jpeg_quality :: nat
  fb_count :: nat

text \<open>\<open>camera_fb_t\<close>: the frame a successful \<open>esp_camera_fb_get()\<close> points to. \<open>fb->len\<close>
  is the length of \<open>fb->buf\<close>.\<close>

record camera_fb_t =
  buf :: "byte list"
  width :: nat
  height :: nat
  format :: pixformat_t

definition fb_len :: "camera_fb_t \<Rightarrow> nat" where
  "fb_len fb = length (buf fb)"

type_synonym esp_err_t = int

definition ESP_OK :: esp_err_t where
  "ESP_OK = 0"

definition AUDIO_SAMPLE_RATE :: nat where
  "AUDIO_SAMPLE_RATE = 16000"

definition AUDIO_BUFFER_SIZE :: nat where
  "AUDIO_BUFFER_SIZE = 512"

text \<open>\<open>short audio_buffer[AUDIO_BUFFER_SIZE * 2]\<close>, seen through the \<open>(char *)\<close> cast of
  the sampling task: two bytes for each \<open>short\<close>.\<close>

definition audio_buffer_bytes :: nat where
  "audio_buffer_bytes = (AUDIO_BUFFER_SIZE * 2) * 2"

text \<open>The globals of \<open>main.cpp\<close>. Two components are not C variables: \<open>spiffs\<close> is the
  content of the SPIFFS store as \<open>SPIFFS.open\<close> shows it (an unmounted store shows no
  file), and \<open>audio_task_alive\<close> says whether the task behind \<open>audioTaskHandle\<close> still
  runs.\<close>

record state =
  config :: camera_config_t
  audio_buffer :: "byte list"
  audio_buffer_pos :: u32
  audio_data_ready :: bool
  camera_initialized :: bool
  wifi_connected :: bool
  i2s_initialized :: bool
  frame_count :: u32
  last_frame_time :: u32
  audio_bytes_captured :: u32
  spiffs :: "string \<rightharpoonup> byte list"
  audio_task_alive :: bool

subsection \<open>Calls on the collaborators\<close>

datatype json = JString string | JBool bool | JUInt u32 | JInt int

datatype body =
    Text string
  | Raw "byte list"
  | Json "(string \<times> json) list"
  | HtmlPage  \<comment> \<open>the constant \<open>html_page\<close>\<close>

datatype event =
    FbGet "camera_fb_t option"  \<comment> \<open>\<open>esp_camera_fb_get()\<close> and the pointer it returned\<close>
  | FbReturn camera_fb_t  \<comment> \<open>\<open>esp_camera_fb_return(fb)\<close>\<close>
  | CameraDeinit
  | CameraInit camera_config_t esp_err_t  \<comment> \<open>\<open>esp_camera_init(&config)\<close> and its result\<close>
  | SensorGet bool  \<comment> \<open>\<open>esp_camera_sensor_get()\<close>, whether non-null\<close>
  | SetFramesize framesize_t
  | Delay nat  \<comment> \<open>\<open>delay(ms)\<close> or \<open>vTaskDelay(pdMS_TO_TICKS(ms))\<close>\<close>
  | SendHeader string string
  | Send nat string body  \<comment> \<open>\<open>send\<close>, \<open>send_P\<close>, \<open>streamFile\<close>: status, content type, body\<close>
  | FileOpen string bool bool  \<comment> \<open>path, for writing, whether the \<open>File\<close> is valid\<close>
  | FileWrite "byte list"
  | FileClose
  | SpiffsBegin bool
  | WiFiBegin
  | I2SBegin bool
  | I2SAvailable u32
  | I2SReadBytes u32 "byte list"  \<comment> \<open>bytes asked for, bytes copied into \<open>audio_buffer\<close>\<close>
  | ServerBegin
  | TaskCreate string
  | TaskDelete string
  | Restart

text \<open>What the hardware answers during one request.\<close>

record hw =
  fb_first :: "camera_fb_t option"  \<comment> \<open>the handler's first \<open>esp_camera_fb_get()\<close>\<close>
  reinit :: esp_err_t  \<comment> \<open>\<open>esp_camera_init\<close> during recovery\<close>
  sensor :: bool  \<comment> \<open>\<open>esp_camera_sensor_get()\<close> during recovery\<close>
  fb_retry :: "camera_fb_t option"  \<comment> \<open>\<open>esp_camera_fb_get()\<close> after recovery\<close>
  open_ok :: bool  \<comment> \<open>whether \<open>SPIFFS.open(path, FILE_WRITE)\<close> gives a valid file\<close>
  local_ip :: string
  rssi :: int

text \<open>What the sampler answers during one iteration of the audio loop: the value of
  \<open>I2S.available()\<close> as converted to \<open>size_t\<close>, and the bytes it has for \<open>readBytes\<close>.\<close>

record audio_hw =
  i2s_available :: u32
  i2s_data :: "byte list"

text \<open>\<open>String(n)\<close> of an unsigned number: its decimal digits.\<close>

fun String_of :: "nat \<Rightarrow> string" where
  "String_of n =
     (if n < 10 then [''0123456789'' ! n]
      else String_of (n div 10) @ [''0123456789'' ! (n mod 10)])"

declare String_of.simps [simp del]

text \<open>The message bodies that are not ASCII, as their UTF-8 bytes.\<close>

definition msg_capture_ok :: string where
  "msg_capture_ok =
     [CHR 0xE6, CHR 0x8B, CHR 0x8D, CHR 0xE7, CHR 0x85, CHR 0xA7, CHR 0xE6, CHR 0x88,
      CHR 0x90, CHR 0xE5, CHR 0x8A, CHR 0x9F]"

definition msg_saved :: string where
  "msg_saved =
     [CHR 0xE7, CHR 0x85, CHR 0xA7, CHR 0xE7, CHR 0x89, CHR 0x87, CHR 0xE5, CHR 0xB7,
      CHR 0xB2, CHR 0xE4, CHR 0xBF, CHR 0x9D, CHR 0xE5, CHR 0xAD, CHR 0x98, CHR 0xE5,
      CHR 0x88, CHR 0xB0, CHR 0x20, CHR 0x53, CHR 0x44, CHR 0x20, CHR 0xE5, CHR 0x8D,
      CHR 0xA1]"

definition msg_restarting :: string where
  "msg_restarting =
     [CHR 0xE8, CHR 0xAE, CHR 0xBE, CHR 0xE5, CHR 0xA4, CHR 0x87, CHR 0xE9, CHR 0x87,
      CHR 0x8D, CHR 0xE5, CHR 0x90, CHR 0xAF, CHR 0xE4, CHR 0xB8, CHR 0xAD, CHR 0x2E,
      CHR 0x2E, CHR 0x2E]"

definition msg_not_found :: string where
  "msg_not_found =
     [CHR 0x34, CHR 0x30, CHR 0x34, CHR 0x20, CHR 0x2D, CHR 0x20, CHR 0xE9, CHR 0xA1,
      CHR 0xB5, CHR 0xE9, CHR 0x9D, CHR 0xA2, CHR 0xE6, CHR 0x9C, CHR 0xAA, CHR 0xE6,
      CHR 0x89, CHR 0xBE, CHR 0xE5, CHR 0x88, CHR 0xB0]"

section \<open>HTTP request handlers\<close>

definition handleRoot :: "state \<Rightarrow> state \<times> event list" where
  "handleRoot s = (s, [Send 200 ''text/html; charset=utf-8'' HtmlPage])"

definition handleVideoJpeg :: "state \<Rightarrow> hw \<Rightarrow> state \<times> event list" where
  "handleVideoJpeg s e =
     (if \<not> camera_initialized s then
        (s, [Send 503 ''text/plain'' (Text ''Camera not initialized'')])
      else
        (case fb_first e of
           Some fb \<Rightarrow>
             (s\<lparr>frame_count := frame_count s + 1\<rparr>,
              [FbGet (Some fb),
               SendHeader ''Content-Type'' ''image/jpeg'',
               SendHeader ''Content-Length'' (String_of (fb_len fb)),
               SendHeader ''Cache-Control'' ''no-cache'',
               Send 200 ''image/jpeg'' (Raw (take (fb_len fb) (buf fb))),
               FbReturn fb])
         | None \<Rightarrow>
             (if reinit e = ESP_OK then
                (case fb_retry e of
                   Some fb \<Rightarrow>
                     (s\<lparr>frame_count := frame_count s + 1\<rparr>,
                      [FbGet None, CameraDeinit, Delay 100, CameraInit (config s) (reinit e),
                       SensorGet (sensor e)]
                      @ (if sensor e then [SetFramesize FRAMESIZE_VGA] else [])
                      @ [FbGet (Some fb),
                         SendHeader ''Content-Type'' ''image/jpeg'',
                         SendHeader ''Content-Length'' (String_of (fb_len fb)),
                         Send 200 ''image/jpeg'' (Raw (take (fb_len fb) (buf fb))),
                         FbReturn fb])
                 | None \<Rightarrow>
                     (s,
                      [FbGet None, CameraDeinit, Delay 100, CameraInit (config s) (reinit e),
                       SensorGet (sensor e)]
                      @ (if sensor e then [SetFramesize FRAMESIZE_VGA] else [])
                      @ [FbGet None,
                         Send 503 ''text/plain'' (Text ''Camera capture failed'')]))
              else
                (s,
                 [FbGet None, CameraDeinit, Delay 100, CameraInit (config s) (reinit e),
                  Send 503 ''text/plain'' (Text ''Camera capture failed'')]))))"

definition handleCapture :: "state \<Rightarrow> hw \<Rightarrow> state \<times> event list" where
  "handleCapture s e =
     (if \<not> camera_initialized s then
        (s, [Send 503 ''text/plain'' (Text ''Camera not initialized'')])
      else
        (case fb_first e of
           Some fb \<Rightarrow>
             (if open_ok e then
                (s\<lparr>spiffs := (spiffs s)(''/photo.jpg'' \<mapsto> take (fb_len fb) (buf fb))\<rparr>,
                 [FbGet (Some fb),
                  FileOpen ''/photo.jpg'' True True,
                  FileWrite (take (fb_len fb) (buf fb)),
                  FileClose,
                  Send 200 ''text/plain; charset=utf-8'' (Text msg_capture_ok),
                  FbReturn fb])
              else
                (s,
                 [FbGet (Some fb),
                  FileOpen ''/photo.jpg'' True False,
                  Send 503 ''text/plain'' (Text ''Failed to save photo''),
                  FbReturn fb]))
         | None \<Rightarrow>
             (s, [FbGet None, Send 503 ''text/plain'' (Text ''Camera capture failed'')])))"

definition handleSave :: "state \<Rightarrow> state \<times> event list" where
  "handleSave s = (s, [Send 200 ''text/plain; charset=utf-8'' (Text msg_saved)])"

definition handleSavedPhoto :: "state \<Rightarrow> state \<times> event list" where
  "handleSavedPhoto s =
     (case spiffs s ''/photo.jpg'' of
        Some bytes \<Rightarrow>
          (s,
           [FileOpen ''/photo.jpg'' False True,
            SendHeader ''Content-Type'' ''image/jpeg'',
            SendHeader ''Content-Length'' (String_of (length bytes)),
            Send 200 ''image/jpeg'' (Raw bytes),
            FileClose])
      | None \<Rightarrow>
          (s,
           [FileOpen ''/photo.jpg'' False False,
            Send 404 ''text/plain'' (Text ''Photo not found'')]))"

definition onAudioCapture :: "state \<Rightarrow> state \<times> event list" where
  "onAudioCapture s =
     (s, [SendHeader ''Content-Type'' ''audio/wav'',
          Send 200 ''text/plain'' (Text ''Audio stream endpoint'')])"

definition status_doc :: "state \<Rightarrow> hw \<Rightarrow> (string \<times> json) list" where
  "status_doc s e =
     [(''device'', JString ''XIAO-ESP32S3-Sense''),
      (''firmware_version'', JString ''v2.0''),
      (''wifi_connected'', JBool (wifi_connected s)),
      (''ip_address'', JString (local_ip e)),
      (''camera_initialized'', JBool (camera_initialized s)),
      (''i2s_initialized'', JBool (i2s_initialized s)),
      (''frame_count'', JUInt (frame_count s)),
      (''signal_strength'', JInt (rssi e))]"

definition handleStatus :: "state \<Rightarrow> hw \<Rightarrow> state \<times> event list" where
  "handleStatus s e =
     (s, [SendHeader ''Content-Type'' ''application/json; charset=utf-8'',
          Send 200 ''application/json'' (Json (status_doc s e))])"

definition handleRestart :: "state \<Rightarrow> state \<times> event list" where
  "handleRestart s =
     (s, [Send 200 ''text/plain; charset=utf-8'' (Text msg_restarting), Delay 1000, Restart])"

definition handleNotFound :: "state \<Rightarrow> state \<times> event list" where
  "handleNotFound s = (s, [Send 404 ''text/plain; charset=utf-8'' (Text msg_not_found)])"

section \<open>Dispatch\<close>

datatype http_method = HTTP_GET | HTTP_POST | HTTP_PUT | HTTP_DELETE

record request =
  meth :: http_method
  uri :: string  \<comment> \<open>the path of the request, without the query\<close>

text \<open>The routes of \<open>setupWebServer\<close>: each \<open>server.on(path, HTTP_GET, handler)\<close> in
  order, then \<open>server.onNotFound\<close>.\<close>

definition handleClient :: "state \<Rightarrow> request \<Rightarrow> hw \<Rightarrow> state \<times> event list" where
  "handleClient s r e =
     (if uri r = ''/'' \<and> meth r = HTTP_GET then handleRoot s
      else if uri r = ''/video.jpg'' \<and> meth r = HTTP_GET then handleVideoJpeg s e
      else if uri r = ''/capture'' \<and> meth r = HTTP_GET then handleCapture s e
      else if uri r = ''/save'' \<and> meth r = HTTP_GET then handleSave s
      else if uri r = ''/saved_photo'' \<and> meth r = HTTP_GET then handleSavedPhoto s
      else if uri r = ''/audio'' \<and> meth r = HTTP_GET then onAudioCapture s
      else if uri r = ''/status'' \<and> meth r = HTTP_GET then handleStatus s e
      else if uri r = ''/restart'' \<and> meth r = HTTP_GET then handleRestart s
      else handleNotFound s)"

section \<open>Initialisation\<close>

text \<open>What the hardware answers during \<open>setup()\<close>.\<close>

record boot_hw =
  spiffs_begin_ok :: bool
  wifi_status :: "nat \<Rightarrow> bool"
    \<comment> \<open>whether the call number \<open>k\<close> (from 0) of \<open>WiFi.status()\<close> gives \<open>WL_CONNECTED\<close>\<close>
  camera_pins :: "int list"
  cam_init :: esp_err_t
  cam_sensor :: bool
  cam_test_fb :: "camera_fb_t option"
  i2s_begin_ok :: bool
  audio_task_created :: bool

text \<open>The wait loop of \<open>setupWiFi\<close>: the value of \<open>attempts\<close> when it ends. The loop
  asks for the status once before each \<open>delay(1000)\<close> and once more when it ends.\<close>

function wifi_wait :: "(nat \<Rightarrow> bool) \<Rightarrow> nat \<Rightarrow> nat" where
  "wifi_wait st attempts =
     (if \<not> st attempts \<and> attempts < 30 then wifi_wait st (Suc attempts) else attempts)"
  by pat_completeness auto
termination
  by (relation "measure (\<lambda>(st, attempts). 30 - attempts)") auto

declare wifi_wait.simps [simp del]

definition setupWiFi :: "state \<Rightarrow> boot_hw \<Rightarrow> state \<times> event list" where
  "setupWiFi s b =
     (let attempts = wifi_wait (wifi_status b) 0;
          t = WiFiBegin # replicate attempts (Delay 1000)
      in if wifi_status b (Suc attempts) then (s\<lparr>wifi_connected := True\<rparr>, t)
         else (s, t))"

definition setupCamera :: "state \<Rightarrow> boot_hw \<Rightarrow> state \<times> event list" where
  "setupCamera s b =
     (let cfg = \<lparr>pins = camera_pins b, xclk_freq_hz = 20000000, frame_size = FRAMESIZE_UXGA,
                 pixel_format = PIXFORMAT_JPEG, grab_mode = CAMERA_GRAB_WHEN_EMPTY,
                 fb_location = CAMERA_FB_IN_PSRAM, jpeg_quality = 12, fb_count = 1\<rparr>;
          s1 = s\<lparr>config := cfg\<rparr>
      in if cam_init b = ESP_OK then
           (s1\<lparr>camera_initialized := True\<rparr>,
            [CameraInit cfg (cam_init b), SensorGet (cam_sensor b)]
            @ (if cam_sensor b then [SetFramesize FRAMESIZE_VGA] else [])
            @ (case cam_test_fb b of
                 Some fb \<Rightarrow> [FbGet (Some fb), FbReturn fb]
               | None \<Rightarrow> [FbGet None]))
         else (s1, [CameraInit cfg (cam_init b)]))"

definition setupI2S :: "state \<Rightarrow> boot_hw \<Rightarrow> state \<times> event list" where
  "setupI2S s b =
     (if \<not> i2s_begin_ok b then (s, [I2SBegin False])
      else (s\<lparr>i2s_initialized := True\<rparr>, [I2SBegin True]))"

definition setupWebServer :: "state \<Rightarrow> state \<times> event list" where
  "setupWebServer s = (s, [ServerBegin])"

section \<open>The audio task\<close>

text \<open>The first statements of \<open>audioCaptureTask\<close>: without an initialised sampler the task
  deletes itself.\<close>

definition audioCaptureTask_entry :: "state \<Rightarrow> state \<times> event list" where
  "audioCaptureTask_entry s =
     (if \<not> i2s_initialized s then (s\<lparr>audio_task_alive := False\<rparr>, [TaskDelete ''AudioCapture''])
      else (s\<lparr>audio_task_alive := True\<rparr>, []))"

text \<open>One iteration of its \<open>while (1)\<close>. \<open>readBytes\<close> copies at most the number of bytes
  asked for to the start of \<open>audio_buffer\<close> and returns how many it copied.\<close>

definition audioCaptureTask_iteration :: "state \<Rightarrow> audio_hw \<Rightarrow> state \<times> event list" where
  "audioCaptureTask_iteration s a =
     (if i2s_initialized s then
        (let bytes_available = i2s_available a in
         if bytes_available > 0 then
           (let bytes_to_read =
                  (if bytes_available > of_nat (AUDIO_BUFFER_SIZE * 2)
                   then of_nat (AUDIO_BUFFER_SIZE * 2) else bytes_available);
                copied = take (unat bytes_to_read) (i2s_data a);
                bytes_read = (of_nat (length copied) :: u32);
                s1 = s\<lparr>audio_buffer := copied @ drop (length copied) (audio_buffer s)\<rparr>
            in if bytes_read > 0 then
                 (s1\<lparr>audio_bytes_captured := audio_bytes_captured s1 + bytes_read,
                     audio_data_ready := True\<rparr>,
                  [I2SAvailable bytes_available, I2SReadBytes bytes_to_read copied, Delay 100])
               else
                 (s1, [I2SAvailable bytes_available, I2SReadBytes bytes_to_read copied, Delay 100]))
         else (s, [I2SAvailable bytes_available, Delay 100]))
      else (s, [Delay 100]))"

text \<open>The task as a whole, observed for as many iterations as there are sampler answers.\<close>

fun audio_loop :: "state \<Rightarrow> audio_hw list \<Rightarrow> state \<times> event list" where
  "audio_loop s [] = (s, [])"
| "audio_loop s (a # as) =
     (let (s1, t1) = audioCaptureTask_iteration s a;
          (s2, t2) = audio_loop s1 as
      in (s2, t1 @ t2))"

definition audioCaptureTask :: "state \<Rightarrow> audio_hw list \<Rightarrow> state \<times> event list" where
  "audioCaptureTask s as =
     (let (s1, t1) = audioCaptureTask_entry s
      in if audio_task_alive s1 then (let (s2, t2) = audio_loop s1 as in (s2, t1 @ t2))
         else (s1, t1))"

section \<open>The process\<close>

text \<open>The globals as the C initialisers leave them, over a given content of the store.\<close>

definition initial_state :: "(string \<rightharpoonup> byte list) \<Rightarrow> state" where
  "initial_state store =
     \<lparr>config = \<lparr>pins = [], xclk_freq_hz = 0, frame_size = FRAMESIZE_96X96,
                 pixel_format = PIXFORMAT_RGB565, grab_mode = CAMERA_GRAB_WHEN_EMPTY,
                 fb_location = CAMERA_FB_IN_PSRAM, jpeg_quality = 0, fb_count = 0\<rparr>,
      audio_buffer = replicate audio_buffer_bytes 0,
      audio_buffer_pos = 0,
      audio_data_ready = False,
      camera_initialized = False,
      wifi_connected = False,
      i2s_initialized = False,
      frame_count = 0,
      last_frame_time = 0,
      audio_bytes_captured = 0,
      spiffs = store,
      audio_task_alive = False\<rparr>"

text \<open>\<open>setup()\<close>. The audio task it creates reaches its entry check with the value of
  \<open>i2s_initialized\<close> that \<open>setupI2S\<close> left: nothing assigns the flag afterwards.\<close>

definition setup_main :: "(string \<rightharpoonup> byte list) \<Rightarrow> boot_hw \<Rightarrow> state \<times> event list" where
  "setup_main store b =
     (let s0 = initial_state store;
          (s1, t1) = setupWiFi s0 b;
          (s2, t2) = setupCamera s1 b;
          (s3, t3) = setupI2S s2 b;
          (s4, t4) = setupWebServer s3;
          (s5, t5) = (if audio_task_created b then audioCaptureTask_entry s4 else (s4, []))
      in (s5, [Delay 3000, SpiffsBegin (spiffs_begin_ok b)] @ t1 @ t2 @ t3 @ t4
              @ [TaskCreate ''VideoCapture'', TaskCreate ''AudioCapture''] @ t5))"

text \<open>After \<open>setup()\<close> the process alternates, in any order, requests served by \<open>loop()\<close>
  and iterations of the audio task; \<open>ESP.restart()\<close> ends it.\<close>

datatype step = Http request hw | AudioTick audio_hw

definition do_step :: "state \<Rightarrow> step \<Rightarrow> state \<times> event list" where
  "do_step s x =
     (case x of
        Http r e \<Rightarrow> handleClient s r e
      | AudioTick a \<Rightarrow> (if audio_task_alive s then audioCaptureTask_iteration s a else (s, [])))"

fun run :: "state \<Rightarrow> step list \<Rightarrow> state \<times> event list" where
  "run s [] = (s, [])"
| "run s (x # xs) =
     (let (s1, t1) = do_step s x
      in if Restart \<in> set t1 then (s1, t1)
         else (let (s2, t2) = run s1 xs in (s2, t1 @ t2)))"

definition process :: "(string \<rightharpoonup> byte list) \<Rightarrow> boot_hw \<Rightarrow> step list \<Rightarrow> state \<times> event list" where
  "process store b xs =
     (let (s0, t0) = setup_main store b;
          (s1, t1) = run s0 xs
      in (s1, t0 @ t1))"

section \<open>Observations on a list of calls\<close>

text \<open>The status codes of the responses sent.\<close>

fun codes :: "event list \<Rightarrow> nat list" where
  "codes [] = []"
| "codes (Send c ct b # t) = c # codes t"
| "codes (x # t) = codes t"

text \<open>The frame pool: \<open>pool h t\<close> follows the handle \<open>h\<close> that is outstanding through the
  calls of \<open>t\<close>. It is \<open>None\<close> when a second frame is acquired while one is outstanding, or
  when a frame is returned that is not the outstanding one; otherwise it is the handle
  outstanding at the end.\<close>

fun pool :: "camera_fb_t option \<Rightarrow> event list \<Rightarrow> camera_fb_t option option" where
  "pool h [] = Some h"
| "pool h (FbGet (Some fb) # t) = (case h of None \<Rightarrow> pool (Some fb) t | Some g \<Rightarrow> None)"
| "pool h (FbReturn fb # t) = (if h = Some fb then pool None t else None)"
| "pool h (x # t) = pool h t"

text \<open>The number of frames acquired, and the number of frames returned, by the calls
  of \<open>t\<close>.\<close>

fun acquired :: "event list \<Rightarrow> nat" where
  "acquired [] = 0"
| "acquired (FbGet (Some fb) # t) = Suc (acquired t)"
| "acquired (x # t) = acquired t"

fun returned :: "event list \<Rightarrow> nat" where
  "returned [] = 0"
| "returned (FbReturn fb # t) = Suc (returned t)"
| "returned (x # t) = returned t"

text \<open>The bodies of the responses sent.\<close>

fun bodies :: "event list \<Rightarrow> body list" where
  "bodies [] = []"
| "bodies (Send c ct b # t) = b # bodies t"
| "bodies (x # t) = bodies t"

text \<open>The responses a list of calls puts on the wire, as far as the program decides them:
  \<open>send\<close> emits the status, a Content-Type header with the content type it was given,
  then the headers added by \<open>sendHeader\<close> since the last response, and the body.\<close>

record response =
  status :: nat
  headers :: "(string \<times> string) list"
  content :: body

fun responses :: "(string \<times> string) list \<Rightarrow> event list \<Rightarrow> response list" where
  "responses hs [] = []"
| "responses hs (SendHeader k v # t) = responses (hs @ [(k, v)]) t"
| "responses hs (Send c ct b # t) =
     \<lparr>status = c, headers = (''Content-Type'', ct) # hs, content = b\<rparr> # responses [] t"
| "responses hs (x # t) = responses hs t"

text \<open>A GET request for a path, and the value of \<open>frame_count\<close> a client reads from
  the answer to GET /status.\<close>

definition get_req :: "string \<Rightarrow> request" where
  "get_req p = \<lparr>meth = HTTP_GET, uri = p\<rparr>"

definition frame_count_read :: "state \<Rightarrow> hw \<Rightarrow> json option" where
  "frame_count_read s e =
     (case bodies (snd (handleClient s (get_req ''/status'') e)) of
        [Json d] \<Rightarrow> map_of d ''frame_count''
      | _ \<Rightarrow> None)"

text \<open>The steps that are GET /capture requests.\<close>

fun is_capture :: "step \<Rightarrow> bool" where
  "is_capture (Http r e) = (uri r = ''/capture'' \<and> meth r = HTTP_GET)"
| "is_capture (AudioTick a) = False"

text \<open>The calls on the I2S sampler, and the audio side of the globals.\<close>

fun sampler_call :: "event \<Rightarrow> bool" where
  "sampler_call (I2SBegin ok) = True"
| "sampler_call (I2SAvailable v) = True"
| "sampler_call (I2SReadBytes n d) = True"
| "sampler_call x = False"

definition audio_view :: "state \<Rightarrow> byte list \<times> u32 \<times> bool \<times> bool \<times> bool" where
  "audio_view s =
     (audio_buffer s, audio_bytes_captured s, audio_data_ready s, i2s_initialized s,
      audio_task_alive s)"

subsection \<open>Concrete inputs\<close>

definition frame0 :: camera_fb_t where
  "frame0 = \<lparr>buf = [0xFF, 0xD8, 0xFF, 0xD9], width = 640, height = 480, format = PIXFORMAT_JPEG\<rparr>"

definition boot_ok :: boot_hw where
  "boot_ok = \<lparr>spiffs_begin_ok = True, wifi_status = (\<lambda>k. True), camera_pins = [], cam_init = 0,
              cam_sensor = True, cam_test_fb = Some frame0, i2s_begin_ok = True,
              audio_task_created = True\<rparr>"

definition boot_no_i2s :: boot_hw where
  "boot_no_i2s = boot_ok\<lparr>i2s_begin_ok := False\<rparr>"

definition hw_ok :: hw where
  "hw_ok = \<lparr>fb_first = Some frame0, reinit = 0, sensor = True, fb_retry = Some frame0,
            open_ok = True, local_ip = ''192.168.1.20'', rssi = - 60\<rparr>"

text \<open>A camera whose first acquisition of the request fails and that works again after
  the driver has been initialised anew.\<close>

definition hw_recovering :: hw where
  "hw_recovering = hw_ok\<lparr>fb_first := None\<rparr>"

text \<open>The state \<open>setup()\<close> leaves when every component comes up, over an empty store.\<close>

definition ready_state :: state where
  "ready_state = fst (setup_main Map.empty boot_ok)"

definition audio_in :: audio_hw where
  "audio_in = \<lparr>i2s_available = 3, i2s_data = [1, 2, 3, 4]\<rparr>"

text \<open>A sampler that reports more bytes than one iteration takes.\<close>

definition audio_flood :: audio_hw where
  "audio_flood = \<lparr>i2s_available = 5000, i2s_data = replicate 2000 7\<rparr>"

text \<open>A store that refuses to open the photo for writing.\<close>

definition hw_store_down :: hw where
  "hw_store_down = hw_ok\<lparr>open_ok := False\<rparr>"

definition steps0 :: "step list" where
  "steps0 =
     [Http (get_req ''/video.jpg'') hw_recovering,
      AudioTick audio_in,
      Http (get_req ''/capture'') hw_store_down]"

section \<open>Properties of the request handlers\<close>

lemma wifi_wait_connected: "st k \<Longrightarrow> wifi_wait st k = k"
  by (simp add: wifi_wait.simps)

lemma pool_delays: "pool h (replicate n (Delay k)) = Some h"
  by (induction n) simp_all

lemma sampler_delays: "filter sampler_call (replicate n (Delay k)) = []"
  by (induction n) simp_all

lemma count_delays: "count_list (replicate n (Delay k)) (TaskCreate name) = 0"
  by (induction n) simp_all

lemma ready_state_eq:
  "ready_state = (initial_state Map.empty)
     \<lparr>config := \<lparr>pins = [], xclk_freq_hz = 20000000, frame_size = FRAMESIZE_UXGA,
                 pixel_format = PIXFORMAT_JPEG, grab_mode = CAMERA_GRAB_WHEN_EMPTY,
                 fb_location = CAMERA_FB_IN_PSRAM, jpeg_quality = 12, fb_count = 1\<rparr>,
      camera_initialized := True, wifi_connected := True, i2s_initialized := True,
      audio_task_alive := True\<rparr>"
  by (simp add: ready_state_def setup_main_def setupWiFi_def setupCamera_def setupI2S_def
      setupWebServer_def audioCaptureTask_entry_def initial_state_def boot_ok_def ESP_OK_def
      Let_def wifi_wait_connected)

lemma ready_state_flags:
  "camera_initialized ready_state" "i2s_initialized ready_state" "audio_task_alive ready_state"
  "frame_count ready_state = 0" "audio_bytes_captured ready_state = 0"
  "spiffs ready_state = Map.empty"
  by (simp_all add: ready_state_eq initial_state_def)

lemma frame_count_read_eq: "frame_count_read s e = Some (JUInt (frame_count s))"
  by (simp add: frame_count_read_def handleClient_def get_req_def handleStatus_def status_doc_def)

lemma video_jpg_route: "handleClient s (get_req ''/video.jpg'') e = handleVideoJpeg s e"
  by (simp add: handleClient_def get_req_def)

lemma capture_route: "handleClient s (get_req ''/capture'') e = handleCapture s e"
  by (simp add: handleClient_def get_req_def)

text \<open>
  Claim C7. A GET /video.jpg request that finds \<open>camera_initialized\<close> false is answered
  with status 503 and the body "Camera not initialized"; the handler makes no other call,
  so it neither acquires a frame nor starts a recovery, and it leaves the globals as they
  were.
\<close>

theorem video_jpg_uninitialized:
  "\<not> camera_initialized s \<Longrightarrow>
     handleClient s (get_req ''/video.jpg'') e =
       (s, [Send 503 ''text/plain'' (Text ''Camera not initialized'')])"
  by (simp add: video_jpg_route handleVideoJpeg_def)

theorem video_jpg_uninitialized_witness:
  "\<not> camera_initialized (initial_state Map.empty) \<and>
     handleClient (initial_state Map.empty) (get_req ''/video.jpg'') hw_ok =
       (initial_state Map.empty, [Send 503 ''text/plain'' (Text ''Camera not initialized'')])"
  using video_jpg_uninitialized [of "initial_state Map.empty" hw_ok]
  by (simp add: initial_state_def)

text \<open>
  Claim C8. Every GET /audio request is answered with one response: status 200, carrying
  the header Content-Type: audio/wav that the handler adds, with the fixed placeholder
  text "Audio stream endpoint" as body. (The content type the handler passes to \<open>send\<close>
  itself is text/plain, so the response carries that Content-Type header as well.)
\<close>

theorem audio_endpoint:
  "handleClient s (get_req ''/audio'') e =
     (s, [SendHeader ''Content-Type'' ''audio/wav'',
          Send 200 ''text/plain'' (Text ''Audio stream endpoint'')])
   \<and> responses [] (snd (handleClient s (get_req ''/audio'') e)) =
       [\<lparr>status = 200,
         headers = [(''Content-Type'', ''text/plain''), (''Content-Type'', ''audio/wav'')],
         content = Text ''Audio stream endpoint''\<rparr>]"
  by (simp add: handleClient_def get_req_def onAudioCapture_def)

text \<open>
  Claim C2. A GET /video.jpg request sends exactly one response, with status 200 or 503.
  The \<open>frame_count\<close> that GET /status reports is the counter itself; after a 200 response
  (on the first acquisition or after recovery) the counter is the old one plus one, in
  the 32-bit unsigned arithmetic of \<open>frame_count++\<close>, and after a 503 response it is the
  old one.
\<close>

theorem video_jpg_frame_count:
  "handleClient s (get_req ''/video.jpg'') e = (s', t) \<Longrightarrow>
     frame_count_read s e1 = Some (JUInt (frame_count s)) \<and>
     frame_count_read s' e2 = Some (JUInt (frame_count s')) \<and>
     (codes t = [200] \<and> frame_count s' = frame_count s + 1
      \<or> codes t = [503] \<and> frame_count s' = frame_count s)"
  by (auto simp add: frame_count_read_eq video_jpg_route handleVideoJpeg_def
      split: if_splits option.splits)

theorem video_jpg_frame_count_witness:
  "codes (snd (handleClient ready_state (get_req ''/video.jpg'') hw_recovering)) = [200] \<and>
   frame_count_read ready_state hw_ok = Some (JUInt 0) \<and>
   frame_count_read (fst (handleClient ready_state (get_req ''/video.jpg'') hw_recovering)) hw_ok
     = Some (JUInt 1) \<and>
   codes (snd (handleClient ready_state (get_req ''/video.jpg'') (hw_recovering\<lparr>fb_retry := None\<rparr>)))
     = [503] \<and>
   frame_count_read
     (fst (handleClient ready_state (get_req ''/video.jpg'') (hw_recovering\<lparr>fb_retry := None\<rparr>)))
     hw_ok = Some (JUInt 0)"
proof -
  let ?a = "handleClient ready_state (get_req ''/video.jpg'') hw_recovering"
  let ?b = "handleClient ready_state (get_req ''/video.jpg'') (hw_recovering\<lparr>fb_retry := None\<rparr>)"
  have ca: "codes (snd ?a) = [200]"
    by (simp add: video_jpg_route handleVideoJpeg_def ready_state_flags hw_recovering_def
        hw_ok_def ESP_OK_def)
  have cb: "codes (snd ?b) = [503]"
    by (simp add: video_jpg_route handleVideoJpeg_def ready_state_flags hw_recovering_def
        hw_ok_def ESP_OK_def)
  have a: "frame_count_read ready_state hw_ok = Some (JUInt (frame_count ready_state)) \<and>
      frame_count_read (fst ?a) hw_ok = Some (JUInt (frame_count (fst ?a))) \<and>
      frame_count (fst ?a) = frame_count ready_state + 1"
    using video_jpg_frame_count [of ready_state hw_recovering "fst ?a" "snd ?a" hw_ok hw_ok] ca
    by simp
  have b: "frame_count_read (fst ?b) hw_ok = Some (JUInt (frame_count (fst ?b))) \<and>
      frame_count (fst ?b) = frame_count ready_state"
    using video_jpg_frame_count [of ready_state "hw_recovering\<lparr>fb_retry := None\<rparr>" "fst ?b"
        "snd ?b" hw_ok hw_ok] cb
    by simp
  show ?thesis using ca cb a b by (simp add: ready_state_flags)
qed

text \<open>
  Claim C1. The claim asks for one recovery sequence (deinitialise, pause, initialise
  with the stored configuration, lower the resolution, acquire again) after every failed
  first acquisition in a request handler. \<open>handleVideoJpeg\<close> does that; \<open>handleCapture\<close>
  does not: on the same answers of the camera, where the acquisition after recovery
  succeeds, GET /capture sends 503 after the one failed acquisition and calls nothing
  else, while GET /video.jpg recovers and sends the frame.
\<close>

theorem capture_no_recovery:
  "handleClient ready_state (get_req ''/capture'') hw_recovering =
     (ready_state, [FbGet None, Send 503 ''text/plain'' (Text ''Camera capture failed'')])
   \<and> snd (handleClient ready_state (get_req ''/video.jpg'') hw_recovering) =
       [FbGet None, CameraDeinit, Delay 100, CameraInit (config ready_state) ESP_OK,
        SensorGet True, SetFramesize FRAMESIZE_VGA, FbGet (Some frame0),
        SendHeader ''Content-Type'' ''image/jpeg'',
        SendHeader ''Content-Length'' ''4'',
        Send 200 ''image/jpeg'' (Raw [0xFF, 0xD8, 0xFF, 0xD9]),
        FbReturn frame0]"
proof -
  have g: "String_of (fb_len frame0) = ''4''" "take (fb_len frame0) (buf frame0) = [0xFF, 0xD8, 0xFF, 0xD9]"
    by (simp_all add: fb_len_def frame0_def String_of.simps)
  have a: "handleClient ready_state (get_req ''/capture'') hw_recovering =
     (ready_state, [FbGet None, Send 503 ''text/plain'' (Text ''Camera capture failed'')])"
    by (simp add: capture_route handleCapture_def ready_state_flags hw_recovering_def hw_ok_def)
  have b: "snd (handleClient ready_state (get_req ''/video.jpg'') hw_recovering) =
       [FbGet None, CameraDeinit, Delay 100, CameraInit (config ready_state) ESP_OK,
        SensorGet True, SetFramesize FRAMESIZE_VGA, FbGet (Some frame0),
        SendHeader ''Content-Type'' ''image/jpeg'',
        SendHeader ''Content-Length'' (String_of (fb_len frame0)),
        Send 200 ''image/jpeg'' (Raw (take (fb_len frame0) (buf frame0))),
        FbReturn frame0]"
    by (simp add: video_jpg_route handleVideoJpeg_def ready_state_flags hw_recovering_def
        hw_ok_def ESP_OK_def)
  show ?thesis using a b unfolding g by simp
qed

text \<open>What \<open>handleVideoJpeg\<close> does after a failed first acquisition: the driver is
  deinitialised once and initialised anew, and the handler acquires at most once more
  before it answers; without a frame it answers 503 and leaves the globals as they were.\<close>

lemma video_jpg_one_recovery:
  "camera_initialized s \<Longrightarrow> fb_first e = None \<Longrightarrow> handleVideoJpeg s e = (s', t) \<Longrightarrow>
     take 4 t = [FbGet None, CameraDeinit, Delay 100, CameraInit (config s) (reinit e)]
     \<and> count_list t CameraDeinit = 1
     \<and> count_list t (FbGet None) + acquired t \<le> 2
     \<and> (acquired t = 0 \<longrightarrow> codes t = [503] \<and> s' = s)"
  by (auto simp add: handleVideoJpeg_def split: if_splits option.splits)

section \<open>The frame pool\<close>

lemma pool_append:
  "pool h (t1 @ t2) = (case pool h t1 of None \<Rightarrow> None | Some h' \<Rightarrow> pool h' t2)"
  by (induction h t1 rule: pool.induct) (auto split: option.splits)

lemma pool_count:
  "pool h t = Some h' \<Longrightarrow>
     acquired t + (case h of None \<Rightarrow> 0 | Some g \<Rightarrow> 1) =
     returned t + (case h' of None \<Rightarrow> 0 | Some g \<Rightarrow> 1)"
  by (induction h t rule: pool.induct) (auto split: option.splits if_splits)

lemma pool_take:
  assumes "pool h t = Some h'"
  shows "\<exists>g. pool h (take n t) = Some g"
proof -
  have "pool h (take n t @ drop n t) = Some h'" using assms by simp
  then show ?thesis unfolding pool_append by (auto split: option.splits)
qed

lemma pool_handleVideoJpeg: "pool None (snd (handleVideoJpeg s e)) = Some None"
  by (simp add: handleVideoJpeg_def split: option.splits)

lemma pool_handleCapture: "pool None (snd (handleCapture s e)) = Some None"
  by (simp add: handleCapture_def split: option.splits)

lemma pool_handleSavedPhoto: "pool None (snd (handleSavedPhoto s)) = Some None"
  by (simp add: handleSavedPhoto_def split: option.splits)

lemma pool_handleClient: "pool None (snd (handleClient s r e)) = Some None"
  by (simp add: handleClient_def pool_handleVideoJpeg pool_handleCapture pool_handleSavedPhoto
      handleRoot_def handleSave_def onAudioCapture_def handleStatus_def handleRestart_def
      handleNotFound_def)

lemma pool_iteration: "pool None (snd (audioCaptureTask_iteration s a)) = Some None"
  by (simp add: audioCaptureTask_iteration_def Let_def)

lemma pool_do_step: "pool None (snd (do_step s x)) = Some None"
  by (cases x) (simp_all add: do_step_def pool_handleClient pool_iteration)

lemma pool_run: "pool None (snd (run s xs)) = Some None"
proof (induction xs arbitrary: s)
  case Nil
  show ?case by simp
next
  case (Cons x xs)
  obtain s1 t1 where d: "do_step s x = (s1, t1)" by (cases "do_step s x")
  obtain s2 t2 where r: "run s1 xs = (s2, t2)" by (cases "run s1 xs")
  have p1: "pool None t1 = Some None" using pool_do_step [of s x] d by simp
  have p2: "pool None t2 = Some None" using Cons.IH [of s1] r by simp
  show ?case using d r p1 p2 by (simp add: pool_append)
qed

lemma pool_setup_main: "pool None (snd (setup_main store b)) = Some None"
  by (simp add: setup_main_def setupWiFi_def setupCamera_def setupI2S_def setupWebServer_def
      audioCaptureTask_entry_def Let_def pool_append pool_delays split: option.splits)

lemma pool_process: "pool None (snd (process store b xs)) = Some None"
proof -
  obtain s0 t0 where a: "setup_main store b = (s0, t0)" by (cases "setup_main store b")
  obtain s1 t1 where r: "run s0 xs = (s1, t1)" by (cases "run s0 xs")
  have p0: "pool None t0 = Some None" using pool_setup_main [of store b] a by simp
  have p1: "pool None t1 = Some None" using pool_run [of s0 xs] r by simp
  show ?thesis using a r p0 p1 by (simp add: process_def pool_append)
qed

text \<open>
  Claim C3. Each request handler returns every frame it acquired, once, before it ends,
  on every path (the calls of one handler, started with no frame outstanding, end with
  no frame outstanding and never return a frame that is not the outstanding one). So
  over \<open>setup()\<close> followed by any sequence of requests and audio iterations, no frame is
  outstanding at the end, and after any number of calls the frames acquired are the
  frames returned or one more.
\<close>

theorem frames_released_once:
  "pool None (snd (handleClient s r e)) = Some None
   \<and> pool None (snd (process store b xs)) = Some None
   \<and> (\<forall>n. returned (take n (snd (process store b xs)))
            \<le> acquired (take n (snd (process store b xs)))
          \<and> acquired (take n (snd (process store b xs)))
            \<le> returned (take n (snd (process store b xs))) + 1)"
proof -
  let ?t = "snd (process store b xs)"
  have full: "pool None ?t = Some None" by (rule pool_process)
  have "returned (take n ?t) \<le> acquired (take n ?t)
        \<and> acquired (take n ?t) \<le> returned (take n ?t) + 1" for n
  proof -
    obtain g where g: "pool None (take n ?t) = Some g" using pool_take [OF full] by blast
    show ?thesis using pool_count [OF g] by (auto split: option.splits)
  qed
  then show ?thesis using full pool_handleClient by blast
qed

theorem frames_released_once_witness:
  "snd (handleClient ready_state (get_req ''/capture'') hw_store_down) =
     [FbGet (Some frame0), FileOpen ''/photo.jpg'' True False,
      Send 503 ''text/plain'' (Text ''Failed to save photo''), FbReturn frame0]
   \<and> pool None (snd (handleClient ready_state (get_req ''/capture'') hw_store_down)) = Some None
   \<and> pool None (snd (process Map.empty boot_ok steps0)) = Some None
   \<and> returned (take 9 (snd (process Map.empty boot_ok steps0)))
      \<le> acquired (take 9 (snd (process Map.empty boot_ok steps0)))
   \<and> acquired (take 9 (snd (process Map.empty boot_ok steps0)))
      \<le> returned (take 9 (snd (process Map.empty boot_ok steps0))) + 1"
proof -
  have a: "snd (handleClient ready_state (get_req ''/capture'') hw_store_down) =
     [FbGet (Some frame0), FileOpen ''/photo.jpg'' True False,
      Send 503 ''text/plain'' (Text ''Failed to save photo''), FbReturn frame0]"
    by (simp add: capture_route handleCapture_def ready_state_flags hw_store_down_def hw_ok_def)
  show ?thesis
    using a frames_released_once [of ready_state "get_req ''/capture''" hw_store_down Map.empty
        boot_ok steps0]
    by blast
qed

section \<open>The persisted photo\<close>

lemma spiffs_iteration: "spiffs (fst (audioCaptureTask_iteration s a)) = spiffs s"
  by (simp add: audioCaptureTask_iteration_def Let_def)

lemma spiffs_do_step: "\<not> is_capture x \<Longrightarrow> spiffs (fst (do_step s x)) = spiffs s"
  by (cases x)
     (auto simp add: do_step_def spiffs_iteration handleClient_def handleRoot_def
        handleVideoJpeg_def handleSave_def handleSavedPhoto_def onAudioCapture_def
        handleStatus_def handleRestart_def handleNotFound_def split: option.splits)

lemma spiffs_run: "\<forall>x \<in> set xs. \<not> is_capture x \<Longrightarrow> spiffs (fst (run s xs)) = spiffs s"
proof (induction xs arbitrary: s)
  case Nil
  show ?case by simp
next
  case (Cons x xs)
  obtain s1 t1 where d: "do_step s x = (s1, t1)" by (cases "do_step s x")
  have a: "spiffs s1 = spiffs s" using spiffs_do_step [of x s] Cons.prems d by simp
  have b: "spiffs (fst (run s1 xs)) = spiffs s1" using Cons.IH [of s1] Cons.prems by simp
  show ?case using d a b by (simp add: case_prod_unfold Let_def)
qed

lemma spiffs_setup_main: "spiffs (fst (setup_main store b)) = store"
  by (simp add: setup_main_def setupWiFi_def setupCamera_def setupI2S_def setupWebServer_def
      audioCaptureTask_entry_def initial_state_def Let_def)

lemma spiffs_process:
  "\<forall>x \<in> set xs. \<not> is_capture x \<Longrightarrow> spiffs (fst (process store b xs)) = store"
  using spiffs_run [of xs "fst (setup_main store b)"] spiffs_setup_main [of store b]
  by (simp add: process_def case_prod_unfold Let_def)

lemma saved_photo_absent:
  "spiffs s ''/photo.jpg'' = None \<Longrightarrow>
     handleClient s (get_req ''/saved_photo'') e =
       (s, [FileOpen ''/photo.jpg'' False False, Send 404 ''text/plain'' (Text ''Photo not found'')])"
  by (simp add: handleClient_def get_req_def handleSavedPhoto_def)

lemma saved_photo_present:
  "spiffs s ''/photo.jpg'' = Some bytes \<Longrightarrow>
     handleClient s (get_req ''/saved_photo'') e =
       (s, [FileOpen ''/photo.jpg'' False True,
            SendHeader ''Content-Type'' ''image/jpeg'',
            SendHeader ''Content-Length'' (String_of (length bytes)),
            Send 200 ''image/jpeg'' (Raw bytes),
            FileClose])"
  by (simp add: handleClient_def get_req_def handleSavedPhoto_def)

lemma capture_200:
  "handleClient s (get_req ''/capture'') e = (s1, t1) \<Longrightarrow> codes t1 = [200] \<Longrightarrow>
     \<exists>fb. fb_first e = Some fb \<and> FileWrite (buf fb) \<in> set t1 \<and>
          spiffs s1 ''/photo.jpg'' = Some (buf fb)"
  by (auto simp add: capture_route handleCapture_def fb_len_def split: if_splits option.splits)

text \<open>
  Claim C4. Over a store that holds no /photo.jpg, after \<open>setup()\<close> and any requests and
  audio iterations none of which is a GET /capture, GET /saved_photo is answered with
  404 "Photo not found". After a GET /capture answered with 200, in any state, and after
  any further steps none of which is a GET /capture, GET /saved_photo is answered with
  200 and a body that is the bytes of the frame that request acquired and wrote.
\<close>

theorem saved_photo_after_capture:
  "(store ''/photo.jpg'' = None \<and> (\<forall>x \<in> set xs. \<not> is_capture x) \<longrightarrow>
      snd (handleClient (fst (process store b xs)) (get_req ''/saved_photo'') e') =
        [FileOpen ''/photo.jpg'' False False, Send 404 ''text/plain'' (Text ''Photo not found'')])
   \<and> (handleClient s (get_req ''/capture'') e = (s1, t1) \<and> codes t1 = [200]
        \<and> (\<forall>y \<in> set ys. \<not> is_capture y) \<longrightarrow>
        (\<exists>fb. fb_first e = Some fb \<and> FileWrite (buf fb) \<in> set t1 \<and>
           snd (handleClient (fst (run s1 ys)) (get_req ''/saved_photo'') e') =
             [FileOpen ''/photo.jpg'' False True,
              SendHeader ''Content-Type'' ''image/jpeg'',
              SendHeader ''Content-Length'' (String_of (length (buf fb))),
              Send 200 ''image/jpeg'' (Raw (buf fb)),
              FileClose]))"
proof (intro conjI impI)
  assume a: "store ''/photo.jpg'' = None \<and> (\<forall>x \<in> set xs. \<not> is_capture x)"
  then have "spiffs (fst (process store b xs)) ''/photo.jpg'' = None"
    by (simp add: spiffs_process)
  then show "snd (handleClient (fst (process store b xs)) (get_req ''/saved_photo'') e') =
        [FileOpen ''/photo.jpg'' False False, Send 404 ''text/plain'' (Text ''Photo not found'')]"
    by (simp add: saved_photo_absent)
next
  assume a: "handleClient s (get_req ''/capture'') e = (s1, t1) \<and> codes t1 = [200]
        \<and> (\<forall>y \<in> set ys. \<not> is_capture y)"
  then obtain fb where fb: "fb_first e = Some fb" "FileWrite (buf fb) \<in> set t1"
      "spiffs s1 ''/photo.jpg'' = Some (buf fb)"
    using capture_200 [of s e s1 t1] by blast
  have "spiffs (fst (run s1 ys)) ''/photo.jpg'' = Some (buf fb)"
    using a fb(3) by (simp add: spiffs_run)
  then have "snd (handleClient (fst (run s1 ys)) (get_req ''/saved_photo'') e') =
             [FileOpen ''/photo.jpg'' False True,
              SendHeader ''Content-Type'' ''image/jpeg'',
              SendHeader ''Content-Length'' (String_of (length (buf fb))),
              Send 200 ''image/jpeg'' (Raw (buf fb)),
              FileClose]"
    by (simp add: saved_photo_present)
  then show "\<exists>fb. fb_first e = Some fb \<and> FileWrite (buf fb) \<in> set t1 \<and>
           snd (handleClient (fst (run s1 ys)) (get_req ''/saved_photo'') e') =
             [FileOpen ''/photo.jpg'' False True,
              SendHeader ''Content-Type'' ''image/jpeg'',
              SendHeader ''Content-Length'' (String_of (length (buf fb))),
              Send 200 ''image/jpeg'' (Raw (buf fb)),
              FileClose]"
    using fb by blast
qed

theorem saved_photo_after_capture_witness:
  "snd (handleClient (fst (process Map.empty boot_ok [Http (get_req ''/status'') hw_ok]))
         (get_req ''/saved_photo'') hw_ok) =
     [FileOpen ''/photo.jpg'' False False, Send 404 ''text/plain'' (Text ''Photo not found'')]
   \<and> codes (snd (handleClient ready_state (get_req ''/capture'') hw_ok)) = [200]
   \<and> snd (handleClient
           (fst (run (fst (handleClient ready_state (get_req ''/capture'') hw_ok))
                   [Http (get_req ''/video.jpg'') hw_ok]))
           (get_req ''/saved_photo'') hw_ok) =
       [FileOpen ''/photo.jpg'' False True,
        SendHeader ''Content-Type'' ''image/jpeg'',
        SendHeader ''Content-Length'' ''4'',
        Send 200 ''image/jpeg'' (Raw [0xFF, 0xD8, 0xFF, 0xD9]),
        FileClose]"
proof -
  let ?c = "handleClient ready_state (get_req ''/capture'') hw_ok"
  note T = saved_photo_after_capture [of Map.empty "[Http (get_req ''/status'') hw_ok]" boot_ok
        hw_ok ready_state hw_ok "fst ?c" "snd ?c" "[Http (get_req ''/video.jpg'') hw_ok]"]
  have k: "codes (snd ?c) = [200]"
    by (simp add: capture_route handleCapture_def ready_state_flags hw_ok_def)
  have n1: "\<forall>x \<in> set [Http (get_req ''/status'') hw_ok]. \<not> is_capture x"
    by (simp add: get_req_def)
  have n2: "\<forall>y \<in> set [Http (get_req ''/video.jpg'') hw_ok]. \<not> is_capture y"
    by (simp add: get_req_def)
  have r1: "snd (handleClient (fst (process Map.empty boot_ok [Http (get_req ''/status'') hw_ok]))
         (get_req ''/saved_photo'') hw_ok) =
     [FileOpen ''/photo.jpg'' False False, Send 404 ''text/plain'' (Text ''Photo not found'')]"
    using T n1 by simp
  have "\<exists>fb. fb_first hw_ok = Some fb \<and> FileWrite (buf fb) \<in> set (snd ?c) \<and>
           snd (handleClient (fst (run (fst ?c) [Http (get_req ''/video.jpg'') hw_ok]))
                  (get_req ''/saved_photo'') hw_ok) =
             [FileOpen ''/photo.jpg'' False True,
              SendHeader ''Content-Type'' ''image/jpeg'',
              SendHeader ''Content-Length'' (String_of (length (buf fb))),
              Send 200 ''image/jpeg'' (Raw (buf fb)),
              FileClose]"
    using T k n2 by simp
  then have r2: "snd (handleClient (fst (run (fst ?c) [Http (get_req ''/video.jpg'') hw_ok]))
                  (get_req ''/saved_photo'') hw_ok) =
             [FileOpen ''/photo.jpg'' False True,
              SendHeader ''Content-Type'' ''image/jpeg'',
              SendHeader ''Content-Length'' (String_of (length (buf frame0))),
              Send 200 ''image/jpeg'' (Raw (buf frame0)),
              FileClose]"
    by (auto simp add: hw_ok_def)
  have f: "buf frame0 = [0xFF, 0xD8, 0xFF, 0xD9]"
    by (simp add: frame0_def)
  have g: "String_of (length [0xFF, 0xD8, 0xFF, 0xD9 :: byte]) = ''4''"
    by (simp add: String_of.simps)
  show ?thesis using r1 k r2 unfolding f g by blast
qed

section \<open>The audio task\<close>

text \<open>A property of the states that every step keeps, with a property of the calls that
  concatenation keeps, holds along every run.\<close>

lemma run_invariant:
  assumes init: "P s"
    and step: "\<And>s x. P s \<Longrightarrow> x \<in> set xs \<Longrightarrow> P (fst (do_step s x)) \<and> Q (snd (do_step s x))"
    and nil: "Q []"
    and app: "\<And>t1 t2. Q t1 \<Longrightarrow> Q t2 \<Longrightarrow> Q (t1 @ t2)"
  shows "P (fst (run s xs)) \<and> Q (snd (run s xs))"
  using init step
proof (induction xs arbitrary: s)
  case Nil
  then show ?case using nil by simp
next
  case (Cons x xs)
  have a: "P (fst (do_step s x)) \<and> Q (snd (do_step s x))"
    using Cons.prems by simp
  have b: "P (fst (run (fst (do_step s x)) xs)) \<and> Q (snd (run (fst (do_step s x)) xs))"
    using Cons.IH [of "fst (do_step s x)"] a Cons.prems(2) by simp
  show ?case using a b app by (simp add: case_prod_unfold Let_def)
qed

lemma bytes_to_read_le:
  "unat (if (v::u32) > of_nat (AUDIO_BUFFER_SIZE * 2) then of_nat (AUDIO_BUFFER_SIZE * 2) else v)
     \<le> AUDIO_BUFFER_SIZE * 2"
  by (simp add: AUDIO_BUFFER_SIZE_def word_less_nat_alt)

lemma small_of_nat_eq_0: "n \<le> AUDIO_BUFFER_SIZE * 2 \<Longrightarrow> ((of_nat n :: u32) = 0) = (n = 0)"
proof -
  assume "n \<le> AUDIO_BUFFER_SIZE * 2"
  then have "n < 2 ^ 32" by (simp add: AUDIO_BUFFER_SIZE_def)
  then have u: "unat (of_nat n :: u32) = n" by (simp add: unat_of_nat)
  show ?thesis
  proof
    assume "(of_nat n :: u32) = 0"
    then have "unat (of_nat n :: u32) = 0" by simp
    with u show "n = 0" by simp
  next
    assume "n = 0"
    then show "(of_nat n :: u32) = 0" by simp
  qed
qed

lemma iteration_read:
  assumes "i2s_initialized s" "i2s_available a \<noteq> 0"
    and n: "n = (if i2s_available a > of_nat (AUDIO_BUFFER_SIZE * 2)
          then of_nat (AUDIO_BUFFER_SIZE * 2) else i2s_available a)"
    and d: "d = take (unat n) (i2s_data a)"
  shows "audioCaptureTask_iteration s a =
     (s\<lparr>audio_buffer := d @ drop (length d) (audio_buffer s),
                 audio_bytes_captured := audio_bytes_captured s + of_nat (length d),
                 audio_data_ready := (audio_data_ready s \<or> d \<noteq> [])\<rparr>,
      [I2SAvailable (i2s_available a), I2SReadBytes n d, Delay 100])"
proof -
  have n_le: "unat n \<le> AUDIO_BUFFER_SIZE * 2"
    unfolding n by (rule bytes_to_read_le)
  have d_le: "length d \<le> unat n" by (simp add: d)
  have z: "((of_nat (length d) :: u32) = 0) = (d = [])"
    using small_of_nat_eq_0 [of "length d"] n_le d_le by simp
  have pos: "0 < i2s_available a" using assms(2) by (simp add: word_greater_zero_iff)
  have e: "audioCaptureTask_iteration s a =
      (if (of_nat (length d) :: u32) > 0 then
         (s\<lparr>audio_buffer := d @ drop (length d) (audio_buffer s),
            audio_bytes_captured := audio_bytes_captured s + of_nat (length d),
            audio_data_ready := True\<rparr>,
          [I2SAvailable (i2s_available a), I2SReadBytes n d, Delay 100])
       else
         (s\<lparr>audio_buffer := d @ drop (length d) (audio_buffer s)\<rparr>,
          [I2SAvailable (i2s_available a), I2SReadBytes n d, Delay 100]))"
    unfolding audioCaptureTask_iteration_def Let_def n d
    using assms(1) pos by simp
  show ?thesis
  proof (cases "d = []")
    case True
    then have "\<not> (of_nat (length d) :: u32) > 0" by simp
    then show ?thesis unfolding e using True by simp
  next
    case False
    then have "(of_nat (length d) :: u32) > 0" using z by (simp add: word_greater_zero_iff)
    then show ?thesis unfolding e using False by simp
  qed
qed

lemma iteration_idle:
  "\<not> (i2s_initialized s \<and> i2s_available a \<noteq> 0) \<Longrightarrow>
     audioCaptureTask_iteration s a =
       (s, if i2s_initialized s then [I2SAvailable 0, Delay 100] else [Delay 100])"
  by (auto simp add: audioCaptureTask_iteration_def Let_def)

lemma iteration_cases:
  "(audioCaptureTask_iteration s a =
       (s, if i2s_initialized s then [I2SAvailable 0, Delay 100] else [Delay 100])
     \<and> (i2s_initialized s \<longrightarrow> i2s_available a = 0))
   \<or> (\<exists>n d. i2s_initialized s \<and> i2s_available a \<noteq> 0 \<and>
          unat n \<le> AUDIO_BUFFER_SIZE * 2 \<and> length d \<le> unat n \<and>
          audioCaptureTask_iteration s a =
            (s\<lparr>audio_buffer := d @ drop (length d) (audio_buffer s),
               audio_bytes_captured := audio_bytes_captured s + of_nat (length d),
               audio_data_ready := (audio_data_ready s \<or> d \<noteq> [])\<rparr>,
             [I2SAvailable (i2s_available a), I2SReadBytes n d, Delay 100]))"
proof (cases "i2s_initialized s \<and> i2s_available a \<noteq> 0")
  case False
  then show ?thesis using iteration_idle [of s a] by auto
next
  case True
  define n :: u32 where
    "n = (if i2s_available a > of_nat (AUDIO_BUFFER_SIZE * 2)
          then of_nat (AUDIO_BUFFER_SIZE * 2) else i2s_available a)"
  define d where "d = take (unat n) (i2s_data a)"
  have n_le: "unat n \<le> AUDIO_BUFFER_SIZE * 2"
    unfolding n_def by (rule bytes_to_read_le)
  have d_le: "length d \<le> unat n" by (simp add: d_def)
  show ?thesis
    using iteration_read [of s a n d] True n_def d_def n_le d_le by blast
qed

lemma bytes_to_read_min:
  "(if (v::u32) > of_nat (AUDIO_BUFFER_SIZE * 2) then of_nat (AUDIO_BUFFER_SIZE * 2) else v)
     = min v 1024"
  by (simp add: AUDIO_BUFFER_SIZE_def min_def not_le [symmetric])

lemma unat_bytes_to_read:
  "unat (min (v::u32) 1024) = min (unat v) (AUDIO_BUFFER_SIZE * 2)"
  by (simp add: AUDIO_BUFFER_SIZE_def min_def word_le_nat_alt)

text \<open>
  Claim C5. One iteration of the audio loop with an initialised sampler asks how many
  bytes are available. When that number is not zero it reads once: it asks for the
  smaller of that number and \<open>AUDIO_BUFFER_SIZE * 2\<close> = 1024, and copies the bytes the
  sampler has, up to the number asked for, to the start of \<open>audio_buffer\<close>, which is at
  most 1024 bytes and within the bytes of the buffer; the byte counter grows by the
  number of bytes copied, and the ready flag is set when that number is not zero and
  keeps its value otherwise. When zero bytes are available, or the sampler is not
  initialised, the iteration reads nothing and changes nothing.
\<close>

theorem fill_cycle:
  "audioCaptureTask_iteration s a = (s', t) \<Longrightarrow>
     (i2s_initialized s \<and> i2s_available a \<noteq> 0 \<longrightarrow>
        t = [I2SAvailable (i2s_available a),
             I2SReadBytes (min (i2s_available a) 1024)
               (take (unat (min (i2s_available a) 1024)) (i2s_data a)),
             Delay 100]
        \<and> unat (min (i2s_available a) 1024)
            = min (unat (i2s_available a)) (AUDIO_BUFFER_SIZE * 2))
     \<and> (i2s_initialized s \<and> i2s_available a = 0 \<longrightarrow> t = [I2SAvailable 0, Delay 100])
     \<and> (\<not> i2s_initialized s \<longrightarrow> t = [Delay 100])
     \<and> (\<forall>n d. I2SReadBytes n d \<in> set t \<longrightarrow>
        length d \<le> AUDIO_BUFFER_SIZE * 2 \<and> length d \<le> audio_buffer_bytes \<and>
        audio_buffer s' = d @ drop (length d) (audio_buffer s) \<and>
        audio_bytes_captured s' = audio_bytes_captured s + of_nat (length d) \<and>
        audio_data_ready s' = (audio_data_ready s \<or> d \<noteq> []))
     \<and> ((\<forall>n d. I2SReadBytes n d \<notin> set t) \<longrightarrow> s' = s)
     \<and> (i2s_available a = 0 \<longrightarrow> s' = s \<and> (\<forall>n d. I2SReadBytes n d \<notin> set t))"
proof (cases "i2s_initialized s \<and> i2s_available a \<noteq> 0")
  case False
  assume it: "audioCaptureTask_iteration s a = (s', t)"
  have e: "(s', t) = (s, if i2s_initialized s then [I2SAvailable 0, Delay 100] else [Delay 100])"
    unfolding it [symmetric] by (rule iteration_idle [OF False])
  show ?thesis
  proof (cases "i2s_initialized s")
    case True
    then have "s' = s" and "t = [I2SAvailable 0, Delay 100]" using e by simp_all
    then show ?thesis using True False by simp
  next
    case no: False
    then have "s' = s" and "t = [Delay 100]" using e by simp_all
    then show ?thesis using no by simp
  qed
next
  case True
  assume it: "audioCaptureTask_iteration s a = (s', t)"
  define n where "n = min (i2s_available a) 1024"
  define d where "d = take (unat n) (i2s_data a)"
  have n_eq: "n = (if i2s_available a > of_nat (AUDIO_BUFFER_SIZE * 2)
                   then of_nat (AUDIO_BUFFER_SIZE * 2) else i2s_available a)"
    unfolding n_def by (rule bytes_to_read_min [symmetric])
  have un: "unat n = min (unat (i2s_available a)) (AUDIO_BUFFER_SIZE * 2)"
    unfolding n_def by (rule unat_bytes_to_read)
  have len: "length d \<le> AUDIO_BUFFER_SIZE * 2" unfolding d_def using un by simp
  have cap: "AUDIO_BUFFER_SIZE * 2 \<le> audio_buffer_bytes"
    by (simp add: audio_buffer_bytes_def)
  have r: "audioCaptureTask_iteration s a =
     (s\<lparr>audio_buffer := d @ drop (length d) (audio_buffer s),
        audio_bytes_captured := audio_bytes_captured s + of_nat (length d),
        audio_data_ready := (audio_data_ready s \<or> d \<noteq> [])\<rparr>,
      [I2SAvailable (i2s_available a), I2SReadBytes n d, Delay 100])"
    using True n_eq d_def by (intro iteration_read) simp_all
  have t: "t = [I2SAvailable (i2s_available a), I2SReadBytes n d, Delay 100]"
    and s': "s' = s\<lparr>audio_buffer := d @ drop (length d) (audio_buffer s),
               audio_bytes_captured := audio_bytes_captured s + of_nat (length d),
               audio_data_ready := (audio_data_ready s \<or> d \<noteq> [])\<rparr>"
    using it r by simp_all
  have first: "t = [I2SAvailable (i2s_available a),
             I2SReadBytes (min (i2s_available a) 1024)
               (take (unat (min (i2s_available a) 1024)) (i2s_data a)),
             Delay 100]
        \<and> unat (min (i2s_available a) 1024)
            = min (unat (i2s_available a)) (AUDIO_BUFFER_SIZE * 2)"
    using t un unfolding d_def n_def by simp
  have rest: "(\<forall>n d. I2SReadBytes n d \<in> set t \<longrightarrow>
        length d \<le> AUDIO_BUFFER_SIZE * 2 \<and> length d \<le> audio_buffer_bytes \<and>
        audio_buffer s' = d @ drop (length d) (audio_buffer s) \<and>
        audio_bytes_captured s' = audio_bytes_captured s + of_nat (length d) \<and>
        audio_data_ready s' = (audio_data_ready s \<or> d \<noteq> []))
     \<and> ((\<forall>n d. I2SReadBytes n d \<notin> set t) \<longrightarrow> s' = s)"
    using len cap unfolding t s' by auto
  show ?thesis using True first rest by blast
qed

lemma iteration_audio_in:
  "audioCaptureTask_iteration ready_state audio_in =
     (ready_state\<lparr>audio_buffer := [1, 2, 3] @ drop (length [1, 2, 3 :: byte]) (audio_buffer ready_state),
                  audio_bytes_captured := 3, audio_data_ready := True\<rparr>,
      [I2SAvailable 3, I2SReadBytes 3 [1, 2, 3], Delay 100])"
proof -
  have a: "i2s_available audio_in \<noteq> 0" by (simp add: audio_in_def)
  have n: "(3 :: u32) =
      (if i2s_available audio_in > of_nat (AUDIO_BUFFER_SIZE * 2)
       then of_nat (AUDIO_BUFFER_SIZE * 2) else i2s_available audio_in)"
    by (simp add: audio_in_def AUDIO_BUFFER_SIZE_def)
  have d: "[1, 2, 3] = take (unat (3 :: u32)) (i2s_data audio_in)"
    by (simp add: audio_in_def)
  have c: "audio_bytes_captured ready_state + of_nat (length [1, 2, 3 :: byte]) = 3"
    by (simp add: ready_state_flags)
  show ?thesis
    unfolding iteration_read [OF ready_state_flags(2) a n d] c by (simp add: audio_in_def)
qed

theorem fill_cycle_witness:
  "snd (audioCaptureTask_iteration ready_state audio_in) =
     [I2SAvailable 3, I2SReadBytes 3 [1, 2, 3], Delay 100]
   \<and> length [1, 2, 3 :: byte] \<le> audio_buffer_bytes
   \<and> audio_bytes_captured (fst (audioCaptureTask_iteration ready_state audio_in))
       = audio_bytes_captured ready_state + 3
   \<and> audio_data_ready (fst (audioCaptureTask_iteration ready_state audio_in))
   \<and> snd (audioCaptureTask_iteration ready_state audio_flood) =
       [I2SAvailable 5000, I2SReadBytes 1024 (replicate 1024 7), Delay 100]
   \<and> audioCaptureTask_iteration ready_state (audio_in\<lparr>i2s_available := 0\<rparr>) =
       (ready_state, [I2SAvailable 0, Delay 100])"
proof -
  let ?i = "audioCaptureTask_iteration ready_state audio_in"
  let ?f = "audioCaptureTask_iteration ready_state audio_flood"
  let ?z = "audioCaptureTask_iteration ready_state (audio_in\<lparr>i2s_available := 0\<rparr>)"
  have init: "i2s_initialized ready_state" by (rule ready_state_flags(2))
  have i: "i2s_initialized ready_state \<and> i2s_available audio_in \<noteq> 0"
    using init by (simp add: audio_in_def)
  have f: "i2s_initialized ready_state \<and> i2s_available audio_flood \<noteq> 0"
    using init by (simp add: audio_flood_def)
  have z: "i2s_initialized ready_state \<and> i2s_available (audio_in\<lparr>i2s_available := 0\<rparr>) = 0"
    using init by simp
  have "snd ?i = [I2SAvailable (i2s_available audio_in),
             I2SReadBytes (min (i2s_available audio_in) 1024)
               (take (unat (min (i2s_available audio_in) 1024)) (i2s_data audio_in)),
             Delay 100]"
    using fill_cycle [of ready_state audio_in "fst ?i" "snd ?i"] i by simp
  then have t: "snd ?i = [I2SAvailable 3, I2SReadBytes 3 [1, 2, 3], Delay 100]"
    by (simp add: audio_in_def)
  have m: "I2SReadBytes 3 [1, 2, 3] \<in> set (snd ?i)" unfolding t by simp
  have u: "length [1, 2, 3 :: byte] \<le> audio_buffer_bytes \<and>
      audio_bytes_captured (fst ?i)
        = audio_bytes_captured ready_state + of_nat (length [1, 2, 3 :: byte]) \<and>
      audio_data_ready (fst ?i) = (audio_data_ready ready_state \<or> [1, 2, 3 :: byte] \<noteq> [])"
    using fill_cycle [of ready_state audio_in "fst ?i" "snd ?i"] m by fastforce
  have "snd ?f = [I2SAvailable (i2s_available audio_flood),
             I2SReadBytes (min (i2s_available audio_flood) 1024)
               (take (unat (min (i2s_available audio_flood) 1024)) (i2s_data audio_flood)),
             Delay 100]"
    using fill_cycle [of ready_state audio_flood "fst ?f" "snd ?f"] f by simp
  then have g: "snd ?f = [I2SAvailable 5000, I2SReadBytes 1024 (replicate 1024 7), Delay 100]"
    by (simp add: audio_flood_def)
  have "fst ?z = ready_state \<and> snd ?z = [I2SAvailable 0, Delay 100]"
    using fill_cycle [of ready_state "audio_in\<lparr>i2s_available := 0\<rparr>" "fst ?z" "snd ?z"] z
    by simp
  then have h: "?z = (ready_state, [I2SAvailable 0, Delay 100])"
    by (simp add: prod_eq_iff)
  show ?thesis using t u g h by simp
qed

lemma handleClient_audio_view: "audio_view (fst (handleClient s r e)) = audio_view s"
  by (simp add: audio_view_def handleClient_def handleRoot_def handleVideoJpeg_def
      handleCapture_def handleSave_def handleSavedPhoto_def onAudioCapture_def
      handleStatus_def handleRestart_def handleNotFound_def split: option.splits)

lemma handleClient_no_sampler: "filter sampler_call (snd (handleClient s r e)) = []"
  by (simp add: handleClient_def handleRoot_def handleVideoJpeg_def
      handleCapture_def handleSave_def handleSavedPhoto_def onAudioCapture_def
      handleStatus_def handleRestart_def handleNotFound_def split: option.splits)

lemma handleClient_no_task: "TaskCreate name \<notin> set (snd (handleClient s r e))"
  by (simp add: handleClient_def handleRoot_def handleVideoJpeg_def
      handleCapture_def handleSave_def handleSavedPhoto_def onAudioCapture_def
      handleStatus_def handleRestart_def handleNotFound_def split: option.splits)

lemma no_sampler_no_read:
  "filter sampler_call t = [] \<Longrightarrow> I2SReadBytes n d \<notin> set t"
  by (auto simp add: filter_empty_conv)

lemma setup_main_audio:
  "audio_view (fst (setup_main store b)) =
     (replicate audio_buffer_bytes 0, 0, False, i2s_begin_ok b,
      audio_task_created b \<and> i2s_begin_ok b)"
  by (simp add: audio_view_def setup_main_def setupWiFi_def setupCamera_def setupI2S_def
      setupWebServer_def audioCaptureTask_entry_def initial_state_def Let_def)

lemma setup_main_sampler:
  "filter sampler_call (snd (setup_main store b)) = [I2SBegin (i2s_begin_ok b)]"
  by (simp add: setup_main_def setupWiFi_def setupCamera_def setupI2S_def
      setupWebServer_def audioCaptureTask_entry_def Let_def sampler_delays
      split: option.splits)

lemma setup_main_tasks:
  "count_list (snd (setup_main store b)) (TaskCreate ''AudioCapture'') = 1"
  by (simp add: setup_main_def setupWiFi_def setupCamera_def setupI2S_def
      setupWebServer_def audioCaptureTask_entry_def Let_def count_delays
      split: option.splits)

lemma setup_main_no_read: "I2SReadBytes n d \<notin> set (snd (setup_main store b))"
proof
  assume "I2SReadBytes n d \<in> set (snd (setup_main store b))"
  then have "I2SReadBytes n d \<in> set (filter sampler_call (snd (setup_main store b)))"
    by simp
  then show False unfolding setup_main_sampler by simp
qed

lemma do_step_bounds:
  "length (audio_buffer s) = audio_buffer_bytes \<Longrightarrow>
     length (audio_buffer (fst (do_step s x))) = audio_buffer_bytes \<and>
     (\<forall>n d. I2SReadBytes n d \<in> set (snd (do_step s x)) \<longrightarrow>
        unat n \<le> AUDIO_BUFFER_SIZE * 2 \<and> length d \<le> unat n)"
proof (cases x)
  case (Http r e)
  assume len: "length (audio_buffer s) = audio_buffer_bytes"
  have "audio_buffer (fst (handleClient s r e)) = audio_buffer s"
    using handleClient_audio_view [of s r e] by (simp add: audio_view_def)
  then show ?thesis
    using Http len no_sampler_no_read [OF handleClient_no_sampler, of _ _ s r e]
    by (simp add: do_step_def)
next
  case (AudioTick a)
  assume len: "length (audio_buffer s) = audio_buffer_bytes"
  have cap: "AUDIO_BUFFER_SIZE * 2 \<le> audio_buffer_bytes"
    by (simp add: audio_buffer_bytes_def)
  show ?thesis
  proof (cases "audio_task_alive s")
    case False
    then show ?thesis using AudioTick len by (simp add: do_step_def)
  next
    case True
    from iteration_cases [of s a] show ?thesis
    proof
      assume "audioCaptureTask_iteration s a =
         (s, if i2s_initialized s then [I2SAvailable 0, Delay 100] else [Delay 100])
       \<and> (i2s_initialized s \<longrightarrow> i2s_available a = 0)"
      then show ?thesis using AudioTick True len by (simp add: do_step_def)
    next
      assume "\<exists>n d. i2s_initialized s \<and> i2s_available a \<noteq> 0 \<and>
          unat n \<le> AUDIO_BUFFER_SIZE * 2 \<and> length d \<le> unat n \<and>
          audioCaptureTask_iteration s a =
            (s\<lparr>audio_buffer := d @ drop (length d) (audio_buffer s),
               audio_bytes_captured := audio_bytes_captured s + of_nat (length d),
               audio_data_ready := (audio_data_ready s \<or> d \<noteq> [])\<rparr>,
             [I2SAvailable (i2s_available a), I2SReadBytes n d, Delay 100])"
      then obtain n d where nd: "unat n \<le> AUDIO_BUFFER_SIZE * 2" "length d \<le> unat n"
        "audioCaptureTask_iteration s a =
            (s\<lparr>audio_buffer := d @ drop (length d) (audio_buffer s),
               audio_bytes_captured := audio_bytes_captured s + of_nat (length d),
               audio_data_ready := (audio_data_ready s \<or> d \<noteq> [])\<rparr>,
             [I2SAvailable (i2s_available a), I2SReadBytes n d, Delay 100])"
        by blast
      have "length d \<le> length (audio_buffer s)" using nd(1) nd(2) cap len by simp
      then show ?thesis using AudioTick True len nd by (simp add: do_step_def)
    qed
  qed
qed

text \<open>
  Claim C10. In every run of the process, every \<open>readBytes\<close> of the audio loop asks for
  at most \<open>AUDIO_BUFFER_SIZE * 2\<close> = 1024 bytes and copies no more than it asked for,
  while \<open>audio_buffer\<close> has 2048 bytes and keeps that extent: no write goes past the end
  of the array.
\<close>

theorem audio_write_in_bounds:
  "process store b xs = (s, t) \<Longrightarrow>
     length (audio_buffer s) = audio_buffer_bytes
     \<and> (\<forall>n d. I2SReadBytes n d \<in> set t \<longrightarrow>
           unat n \<le> AUDIO_BUFFER_SIZE * 2 \<and> length d \<le> unat n)
     \<and> AUDIO_BUFFER_SIZE * 2 = 1024 \<and> audio_buffer_bytes = 2048"
proof -
  assume p: "process store b xs = (s, t)"
  let ?s0 = "fst (setup_main store b)" and ?t0 = "snd (setup_main store b)"
  let ?Q = "\<lambda>t. \<forall>n d. I2SReadBytes n d \<in> set t \<longrightarrow>
                unat n \<le> AUDIO_BUFFER_SIZE * 2 \<and> length d \<le> unat n"
  have l0: "length (audio_buffer ?s0) = audio_buffer_bytes"
    using setup_main_audio [of store b] by (simp add: audio_view_def)
  have q0: "?Q ?t0" using setup_main_no_read [of _ _ store b] by blast
  have r: "length (audio_buffer (fst (run ?s0 xs))) = audio_buffer_bytes \<and> ?Q (snd (run ?s0 xs))"
    by (rule run_invariant [where P = "\<lambda>s. length (audio_buffer s) = audio_buffer_bytes"])
       (use l0 do_step_bounds in auto)
  have st: "s = fst (run ?s0 xs)" "t = ?t0 @ snd (run ?s0 xs)"
    using p by (simp_all add: process_def case_prod_unfold Let_def)
  show ?thesis using r q0 unfolding st
    by (auto simp add: AUDIO_BUFFER_SIZE_def audio_buffer_bytes_def)
qed

theorem audio_write_in_bounds_witness:
  "length (audio_buffer (fst (process Map.empty boot_ok [AudioTick audio_in]))) = 2048
   \<and> I2SReadBytes 3 [1, 2, 3] \<in> set (snd (process Map.empty boot_ok [AudioTick audio_in]))
   \<and> unat (3 :: u32) \<le> AUDIO_BUFFER_SIZE * 2 \<and> length [1, 2, 3 :: byte] \<le> unat (3 :: u32)"
proof -
  let ?p = "process Map.empty boot_ok [AudioTick audio_in]"
  have d: "do_step ready_state (AudioTick audio_in) =
      audioCaptureTask_iteration ready_state audio_in"
    by (simp add: do_step_def ready_state_flags)
  have "snd ?p = snd (setup_main Map.empty boot_ok)
      @ [I2SAvailable 3, I2SReadBytes 3 [1, 2, 3], Delay 100]"
    unfolding process_def case_prod_unfold Let_def ready_state_def [symmetric] run.simps d
      iteration_audio_in
    by simp
  then have m: "I2SReadBytes 3 [1, 2, 3] \<in> set (snd ?p)" by simp
  show ?thesis
    using audio_write_in_bounds [of Map.empty boot_ok "[AudioTick audio_in]" "fst ?p" "snd ?p"] m
    by auto
qed

lemma do_step_dead:
  "\<not> audio_task_alive s \<Longrightarrow>
     audio_view (fst (do_step s x)) = audio_view s \<and>
     filter sampler_call (snd (do_step s x)) = [] \<and>
     count_list (snd (do_step s x)) (TaskCreate ''AudioCapture'') = 0"
  by (cases x)
     (simp_all add: do_step_def handleClient_audio_view handleClient_no_sampler
        handleClient_no_task)

lemma audioCaptureTask_uninitialized:
  "\<not> i2s_initialized s \<Longrightarrow>
     audioCaptureTask s as = (s\<lparr>audio_task_alive := False\<rparr>, [TaskDelete ''AudioCapture''])"
  by (simp add: audioCaptureTask_def audioCaptureTask_entry_def)

text \<open>
  Claim C6. When \<open>I2S.begin\<close> fails in \<open>setup()\<close>, the audio task finds \<open>i2s_initialized\<close>
  false at its entry and deletes itself. From then on, in every run of the process, the
  failed \<open>I2S.begin\<close> stays the only call ever made on the sampler (no second
  initialisation, no \<open>available\<close>, no \<open>readBytes\<close>), the task is created once and is not
  alive, and buffer, byte counter and ready flag keep their initial values; entering the
  task again in such a state would delete it again at once.
\<close>

theorem audio_task_exits:
  "\<not> i2s_begin_ok b \<Longrightarrow> process store b xs = (s, t) \<Longrightarrow>
     filter sampler_call t = [I2SBegin False]
     \<and> count_list t (TaskCreate ''AudioCapture'') = 1
     \<and> \<not> i2s_initialized s \<and> \<not> audio_task_alive s
     \<and> audio_buffer s = replicate audio_buffer_bytes 0
     \<and> audio_bytes_captured s = 0 \<and> \<not> audio_data_ready s
     \<and> audioCaptureTask s as = (s, [TaskDelete ''AudioCapture''])"
proof -
  assume nb: "\<not> i2s_begin_ok b" and p: "process store b xs = (s, t)"
  let ?s0 = "fst (setup_main store b)" and ?t0 = "snd (setup_main store b)"
  let ?v = "(replicate audio_buffer_bytes (0::byte), 0::u32, False, False, False)"
  let ?P = "\<lambda>s. audio_view s = ?v"
  let ?Q = "\<lambda>t. filter sampler_call t = [] \<and> count_list t (TaskCreate ''AudioCapture'') = 0"
  have v0: "?P ?s0" using setup_main_audio [of store b] nb by simp
  have r: "?P (fst (run ?s0 xs)) \<and> ?Q (snd (run ?s0 xs))"
  proof (rule run_invariant [where P = ?P and Q = ?Q])
    show "?P ?s0" by (rule v0)
  next
    fix s x
    assume a: "?P s"
    then have "\<not> audio_task_alive s" by (simp add: audio_view_def)
    then show "?P (fst (do_step s x)) \<and> ?Q (snd (do_step s x))"
      using do_step_dead [of s x] a by simp
  next
    show "?Q []" by simp
  next
    fix t1 t2
    assume "?Q t1" and "?Q t2"
    then show "?Q (t1 @ t2)" by simp
  qed
  have st: "s = fst (run ?s0 xs)" "t = ?t0 @ snd (run ?s0 xs)"
    using p by (simp_all add: process_def case_prod_unfold Let_def)
  have v: "audio_view s = ?v" using r st by simp
  have dead: "audioCaptureTask s as = (s, [TaskDelete ''AudioCapture''])"
    using v audioCaptureTask_uninitialized [of s as] by (simp add: audio_view_def)
  show ?thesis
    using r v dead nb setup_main_sampler [of store b] setup_main_tasks [of store b]
    unfolding st(2) by (simp add: audio_view_def)
qed

theorem audio_task_exits_witness:
  "\<not> i2s_begin_ok boot_no_i2s
   \<and> filter sampler_call (snd (process Map.empty boot_no_i2s steps0)) = [I2SBegin False]
   \<and> \<not> audio_task_alive (fst (process Map.empty boot_no_i2s steps0))
   \<and> audio_bytes_captured (fst (process Map.empty boot_no_i2s steps0)) = 0
   \<and> \<not> audio_data_ready (fst (process Map.empty boot_no_i2s steps0))"
proof -
  have h: "\<not> i2s_begin_ok boot_no_i2s" by (simp add: boot_no_i2s_def boot_ok_def)
  show ?thesis
    using h audio_task_exits [OF h, of Map.empty steps0 "fst (process Map.empty boot_no_i2s steps0)"
        "snd (process Map.empty boot_no_i2s steps0)"]
    by simp
qed

end
